theory Spec2Isabelle
  imports Main "HOL-Library.Word"
begin

section \<open>Python values and exceptions\<close>

text \<open>
  The module \<^verbatim>\<open>bp.py\<close> describes fixed-layout binary records. Its values are Python
  objects: \<^verbatim>\<open>SerializableType = int | str\<close>, the default \<^verbatim>\<open>None\<close> of an unset
  field, and \<^verbatim>\<open>bool\<close>, which is a subclass of \<^verbatim>\<open>int\<close> with a runtime type of its own.
  A \<^verbatim>\<open>str\<close> that is encoded to bytes is a list of Unicode code points; a \<^verbatim>\<open>str\<close>
  that is only compared (a field name) is a \<open>string\<close>.
\<close>

type_synonym byte = "8 word"

type_synonym pystr = "nat list"

datatype pyval = PyNone | PyBool bool | PyInt int | PyStr pystr

text \<open>\<^verbatim>\<open>type(obj)\<close>: the exact runtime class of a value.\<close>

datatype pytype = NoneType | TBool | TInt | TStr

fun type_of :: "pyval \<Rightarrow> pytype" where
  "type_of PyNone = NoneType"
| "type_of (PyBool b) = TBool"
| "type_of (PyInt n) = TInt"
| "type_of (PyStr t) = TStr"

text \<open>The concrete \<^verbatim>\<open>Type\<close> classes, as \<^verbatim>\<open>type(field.type)\<close> reports them.\<close>

datatype cls = Int8_cls | Int16_cls | Int32_cls | String_cls

text \<open>
  The exceptions of the module (\<^verbatim>\<open>FieldNotFound(name)\<close>, and
  \<^verbatim>\<open>FieldValidationError\<close> with the three variable parts of its message: the field name,
  the class of the field's type and the class of the value), and those that the
  standard library raises below it: \<^verbatim>\<open>struct.error\<close> from \<^verbatim>\<open>struct.pack\<close> and
  \<^verbatim>\<open>struct.unpack\<close>, the two codec errors, \<^verbatim>\<open>AttributeError\<close> for \<^verbatim>\<open>.encode\<close> on a
  value that is no \<^verbatim>\<open>str\<close>, and \<^verbatim>\<open>TypeError\<close> for a call that misses a required
  argument.
\<close>

datatype error =
    FieldNotFound string
  | FieldValidationError string cls pytype
  | StructError
  | UnicodeEncodeError
  | UnicodeDecodeError
  | AttributeError
  | TypeError

section \<open>The byte stream\<close>

text \<open>
  The \<^verbatim>\<open>BinaryIO\<close> argument is supplied by the caller. It is modelled as a seekable
  in-memory buffer that can be read and written (\<^verbatim>\<open>io.BytesIO\<close>): \<^verbatim>\<open>read(size)\<close>
  returns the next \<^verbatim>\<open>size\<close> bytes, fewer when the buffer ends first, all the remaining
  ones when \<^verbatim>\<open>size\<close> is negative; \<^verbatim>\<open>write(b)\<close> overwrites at the position,
  extends the buffer as needed (filling with zero bytes after a seek past the end) and
  returns \<^verbatim>\<open>len(b)\<close>.
\<close>

record stream =
  data :: "byte list"
  pos :: nat

definition stream_read :: "stream \<Rightarrow> int \<Rightarrow> byte list \<times> stream" where
  "stream_read s n =
     (let avail = drop (pos s) (data s);
          bs = (if n < 0 then avail else take (nat n) avail)
      in (bs, s\<lparr>pos := pos s + length bs\<rparr>))"

definition stream_write :: "stream \<Rightarrow> byte list \<Rightarrow> nat \<times> stream" where
  "stream_write s bs =
     (if bs = [] then (0, s)
      else let padded = data s @ replicate (pos s - length (data s)) 0
           in (length bs,
               \<lparr>data = take (pos s) padded @ bs @ drop (pos s + length bs) padded,
                pos = pos s + length bs\<rparr>))"

definition stream_seek :: "stream \<Rightarrow> nat \<Rightarrow> stream" where
  "stream_seek s p = s\<lparr>pos := p\<rparr>"

definition remaining :: "stream \<Rightarrow> nat" where
  "remaining s = length (data s) - pos s"

section \<open>The \<^verbatim>\<open>struct\<close> module\<close>

text \<open>
  \<^verbatim>\<open>st.pack\<close>, \<^verbatim>\<open>st.unpack\<close> and \<^verbatim>\<open>st.calcsize\<close> for the formats the module builds:
  a byte-order character followed by one of \<^verbatim>\<open>b\<close>, \<^verbatim>\<open>h\<close>, \<^verbatim>\<open>i\<close>. The byte order is
  \<^verbatim>\<open>"<"\<close> (little-endian, the default of every \<^verbatim>\<open>read\<close> and \<^verbatim>\<open>write\<close>) or
  \<^verbatim>\<open>">"\<close> (big-endian); both select the standard sizes 1, 2 and 4.

  \<^verbatim>\<open>pack\<close> raises \<^verbatim>\<open>struct.error\<close> when the argument is not an integer or does not
  fit the signed width; a \<^verbatim>\<open>bool\<close> is an integer here. It stores the low byte and shifts
  right arithmetically, width times. \<^verbatim>\<open>unpack\<close> raises \<^verbatim>\<open>struct.error\<close> unless the
  buffer has exactly \<^verbatim>\<open>calcsize\<close> bytes; it accumulates the bytes unsigned and then
  extends the sign bit.
\<close>

datatype endian = Little | Big

datatype fmt = Fmt_b | Fmt_h | Fmt_i

fun calcsize :: "fmt \<Rightarrow> nat" where
  "calcsize Fmt_b = 1"
| "calcsize Fmt_h = 2"
| "calcsize Fmt_i = 4"

fun le_bytes :: "nat \<Rightarrow> int \<Rightarrow> byte list" where
  "le_bytes 0 x = []"
| "le_bytes (Suc k) x = word_of_int x # le_bytes k (x div 256)"

fun le_uint :: "byte list \<Rightarrow> int" where
  "le_uint [] = 0"
| "le_uint (b # bs) = uint b + 256 * le_uint bs"

definition sign_extend :: "nat \<Rightarrow> int \<Rightarrow> int" where
  "sign_extend k x = (if 2 ^ (8 * k - 1) \<le> x then x - 2 ^ (8 * k) else x)"

definition in_range :: "nat \<Rightarrow> int \<Rightarrow> bool" where
  "in_range k x = (- (2 ^ (8 * k - 1)) \<le> x \<and> x < 2 ^ (8 * k - 1))"

definition byte_order :: "endian \<Rightarrow> byte list \<Rightarrow> byte list" where
  "byte_order e bs = (case e of Little \<Rightarrow> bs | Big \<Rightarrow> rev bs)"

definition pack_int :: "endian \<Rightarrow> fmt \<Rightarrow> int \<Rightarrow> error + byte list" where
  "pack_int e c x =
     (if in_range (calcsize c) x then Inr (byte_order e (le_bytes (calcsize c) x))
      else Inl StructError)"

fun pack :: "endian \<Rightarrow> fmt \<Rightarrow> pyval \<Rightarrow> error + byte list" where
  "pack e c (PyInt x) = pack_int e c x"
| "pack e c (PyBool b) = pack_int e c (if b then 1 else 0)"
| "pack e c PyNone = Inl StructError"
| "pack e c (PyStr t) = Inl StructError"

definition unpack :: "endian \<Rightarrow> fmt \<Rightarrow> byte list \<Rightarrow> error + int" where
  "unpack e c bs =
     (if length bs = calcsize c
      then Inr (sign_extend (calcsize c) (le_uint (byte_order e bs)))
      else Inl StructError)"

section \<open>The UTF-8 codec\<close>

text \<open>
  \<^verbatim>\<open>str.encode("utf-8")\<close> and \<^verbatim>\<open>bytes.decode("utf-8")\<close>, both strict. Encoding
  fails on a surrogate code point (\<open>0xD800\<close> to \<open>0xDFFF\<close>), which a Python \<^verbatim>\<open>str\<close>
  may hold; no \<^verbatim>\<open>str\<close> holds a code point above \<open>0x10FFFF\<close>. Decoding accepts exactly
  the well-formed sequences: no overlong form, no surrogate, nothing above \<open>0x10FFFF\<close>,
  no truncated sequence. The encoding argument of \<^verbatim>\<open>String.read\<close> and
  \<^verbatim>\<open>String.write\<close> is kept at its default \<^verbatim>\<open>"utf-8"\<close>.
\<close>

definition cont :: "nat \<Rightarrow> byte" where
  "cont x = of_nat (128 + x mod 64)"

definition utf8_encode_cp :: "nat \<Rightarrow> byte list option" where
  "utf8_encode_cp c =
     (if c < 0x80 then Some [of_nat c]
      else if c < 0x800 then Some [of_nat (0xC0 + c div 64), cont c]
      else if c < 0x10000 then
        (if 0xD800 \<le> c \<and> c \<le> 0xDFFF then None
         else Some [of_nat (0xE0 + c div 4096), cont (c div 64), cont c])
      else if c < 0x110000 then
        Some [of_nat (0xF0 + c div 262144), cont (c div 4096), cont (c div 64), cont c]
      else None)"

fun utf8_encode :: "pystr \<Rightarrow> byte list option" where
  "utf8_encode [] = Some []"
| "utf8_encode (c # cs) =
     (case utf8_encode_cp c of
        None \<Rightarrow> None
      | Some bs \<Rightarrow> (case utf8_encode cs of None \<Rightarrow> None | Some r \<Rightarrow> Some (bs @ r)))"

definition is_cont :: "byte \<Rightarrow> bool" where
  "is_cont b = (0x80 \<le> unat b \<and> unat b \<le> 0xBF)"

definition in_bounds :: "nat \<Rightarrow> byte \<Rightarrow> nat \<Rightarrow> bool" where
  "in_bounds lo b hi = (lo \<le> unat b \<and> unat b \<le> hi)"

definition low6 :: "byte \<Rightarrow> nat" where
  "low6 b = unat b mod 64"

fun utf8_decode :: "byte list \<Rightarrow> pystr option" where
  "utf8_decode [] = Some []"
| "utf8_decode (b0 # bs) =
     (let n = unat b0 in
      if n < 0x80 then map_option ((#) n) (utf8_decode bs)
      else if 0xC2 \<le> n \<and> n \<le> 0xDF then
        (case bs of
           b1 # r \<Rightarrow>
             if is_cont b1
             then map_option ((#) ((n - 0xC0) * 64 + low6 b1)) (utf8_decode r)
             else None
         | _ \<Rightarrow> None)
      else if 0xE0 \<le> n \<and> n \<le> 0xEF then
        (case bs of
           b1 # b2 # r \<Rightarrow>
             if in_bounds (if n = 0xE0 then 0xA0 else 0x80) b1 (if n = 0xED then 0x9F else 0xBF)
                \<and> is_cont b2
             then map_option ((#) ((n - 0xE0) * 4096 + low6 b1 * 64 + low6 b2)) (utf8_decode r)
             else None
         | _ \<Rightarrow> None)
      else if 0xF0 \<le> n \<and> n \<le> 0xF4 then
        (case bs of
           b1 # b2 # b3 # r \<Rightarrow>
             if in_bounds (if n = 0xF0 then 0x90 else 0x80) b1 (if n = 0xF4 then 0x8F else 0xBF)
                \<and> is_cont b2 \<and> is_cont b3
             then map_option
                    ((#) ((n - 0xF0) * 262144 + low6 b1 * 4096 + low6 b2 * 64 + low6 b3))
                    (utf8_decode r)
             else None
         | _ \<Rightarrow> None)
      else None)"

section \<open>The types\<close>

text \<open>
  \<^verbatim>\<open>Int8\<close>, \<^verbatim>\<open>Int16\<close>, \<^verbatim>\<open>Int32\<close> take no constructor argument; \<^verbatim>\<open>String(length)\<close>
  stores \<^verbatim>\<open>length\<close>, which no method reads. Every method is a static method, so a
  call through an instance passes exactly the arguments written at the call site.
\<close>

datatype Type = Int8 | Int16 | Int32 | String int

fun class_of :: "Type \<Rightarrow> cls" where
  "class_of Int8 = Int8_cls"
| "class_of Int16 = Int16_cls"
| "class_of Int32 = Int32_cls"
| "class_of (String n) = String_cls"

text \<open>
  The bodies shared by the three integer classes, which differ in the format character
  only: \<^verbatim>\<open>st.unpack(fmt, stream.read(st.calcsize(fmt)))[0]\<close> and
  \<^verbatim>\<open>stream.write(st.pack(fmt, number))\<close>. A failed \<^verbatim>\<open>unpack\<close> has already consumed
  what \<^verbatim>\<open>stream.read\<close> returned; a failed \<^verbatim>\<open>pack\<close> has written nothing.
\<close>

definition num_read :: "fmt \<Rightarrow> stream \<Rightarrow> endian \<Rightarrow> (error + pyval) \<times> stream" where
  "num_read c s e =
     (case stream_read s (int (calcsize c)) of
        (bs, s') \<Rightarrow>
          (case unpack e c bs of Inl err \<Rightarrow> (Inl err, s') | Inr x \<Rightarrow> (Inr (PyInt x), s')))"

definition num_write :: "fmt \<Rightarrow> stream \<Rightarrow> pyval \<Rightarrow> endian \<Rightarrow> (error + nat) \<times> stream" where
  "num_write c s number e =
     (case pack e c number of
        Inl err \<Rightarrow> (Inl err, s)
      | Inr bs \<Rightarrow> (case stream_write s bs of (n, s') \<Rightarrow> (Inr n, s')))"

definition Int8_verify :: "pyval \<Rightarrow> bool" where
  "Int8_verify obj = (type_of obj = TInt)"

definition Int8_read :: "stream \<Rightarrow> endian \<Rightarrow> (error + pyval) \<times> stream" where
  "Int8_read s e = num_read Fmt_b s e"

definition Int8_write :: "stream \<Rightarrow> pyval \<Rightarrow> endian \<Rightarrow> (error + nat) \<times> stream" where
  "Int8_write s number e = num_write Fmt_b s number e"

definition Int16_verify :: "pyval \<Rightarrow> bool" where
  "Int16_verify obj = (type_of obj = TInt)"

definition Int16_read :: "stream \<Rightarrow> endian \<Rightarrow> (error + pyval) \<times> stream" where
  "Int16_read s e = num_read Fmt_h s e"

definition Int16_write :: "stream \<Rightarrow> pyval \<Rightarrow> endian \<Rightarrow> (error + nat) \<times> stream" where
  "Int16_write s number e = num_write Fmt_h s number e"

definition Int32_verify :: "pyval \<Rightarrow> bool" where
  "Int32_verify obj = (type_of obj = TInt)"

definition Int32_read :: "stream \<Rightarrow> endian \<Rightarrow> (error + pyval) \<times> stream" where
  "Int32_read s e = num_read Fmt_i s e"

definition Int32_write :: "stream \<Rightarrow> pyval \<Rightarrow> endian \<Rightarrow> (error + nat) \<times> stream" where
  "Int32_write s number e = num_write Fmt_i s number e"

definition String_verify :: "pyval \<Rightarrow> bool" where
  "String_verify obj = (type_of obj = TStr)"

text \<open>\<^verbatim>\<open>stream.read(size).decode(encoding)\<close>: whatever \<^verbatim>\<open>read\<close> returns is decoded.\<close>

definition String_read :: "stream \<Rightarrow> int \<Rightarrow> (error + pyval) \<times> stream" where
  "String_read s size_arg =
     (case stream_read s size_arg of
        (bs, s') \<Rightarrow>
          (case utf8_decode bs of
             None \<Rightarrow> (Inl UnicodeDecodeError, s')
           | Some t \<Rightarrow> (Inr (PyStr t), s')))"

text \<open>
  \<^verbatim>\<open>stream.write(string.encode(encoding))\<close>: only a \<^verbatim>\<open>str\<close> has \<^verbatim>\<open>.encode\<close>.
\<close>

fun String_write :: "stream \<Rightarrow> pyval \<Rightarrow> (error + nat) \<times> stream" where
  "String_write s (PyStr t) =
     (case utf8_encode t of
        None \<Rightarrow> (Inl UnicodeEncodeError, s)
      | Some bs \<Rightarrow> (case stream_write s bs of (n, s') \<Rightarrow> (Inr n, s')))"
| "String_write s PyNone = (Inl AttributeError, s)"
| "String_write s (PyBool b) = (Inl AttributeError, s)"
| "String_write s (PyInt x) = (Inl AttributeError, s)"

subsection \<open>Calls through a field's type\<close>

text \<open>
  \<^verbatim>\<open>Struct\<close> calls \<^verbatim>\<open>field.type.verify(value)\<close>, \<^verbatim>\<open>field.type.read(in_stream)\<close> and
  \<^verbatim>\<open>field.type.write(out_stream, field.value)\<close>. The integer classes take their default
  \<^verbatim>\<open>endian = "<"\<close>. \<^verbatim>\<open>String.read(stream, size, encoding="utf-8")\<close> has a required
  parameter \<^verbatim>\<open>size\<close> that the call does not pass: Python raises \<^verbatim>\<open>TypeError\<close> before
  the body runs, and the stream is untouched.
\<close>

fun type_verify :: "Type \<Rightarrow> pyval \<Rightarrow> bool" where
  "type_verify Int8 v = Int8_verify v"
| "type_verify Int16 v = Int16_verify v"
| "type_verify Int32 v = Int32_verify v"
| "type_verify (String n) v = String_verify v"

fun type_read :: "Type \<Rightarrow> stream \<Rightarrow> (error + pyval) \<times> stream" where
  "type_read Int8 s = Int8_read s Little"
| "type_read Int16 s = Int16_read s Little"
| "type_read Int32 s = Int32_read s Little"
| "type_read (String n) s = (Inl TypeError, s)"

fun type_write :: "Type \<Rightarrow> stream \<Rightarrow> pyval \<Rightarrow> (error + nat) \<times> stream" where
  "type_write Int8 s v = Int8_write s v Little"
| "type_write Int16 s v = Int16_write s v Little"
| "type_write Int32 s v = Int32_write s v Little"
| "type_write (String n) s v = String_write s v"

section \<open>Fields and structs\<close>

text \<open>
  A \<^verbatim>\<open>Field\<close> is a mutable object with the attributes \<^verbatim>\<open>name\<close>, \<^verbatim>\<open>type\<close> and
  \<^verbatim>\<open>value\<close>. A \<^verbatim>\<open>Struct\<close> holds the tuple \<^verbatim>\<open>fields\<close> of references to such objects,
  and \<^verbatim>\<open>read\<close> and \<^verbatim>\<open>set\<close> assign to \<^verbatim>\<open>field.value\<close> in place. The objects live in
  a heap indexed by references, so that one object may occur twice in a tuple or in two
  structs; the tuple itself never changes. \<^verbatim>\<open>Field(name, type, default=None)\<close> only
  stores its arguments (a class given for the type is instantiated first), and
  \<^verbatim>\<open>Struct(*fields)\<close> only stores the tuple.
\<close>

record Field =
  name :: string
  type :: Type
  "value" :: pyval

type_synonym ref = nat

type_synonym heap = "ref \<Rightarrow> Field"

type_synonym Struct = "ref list"

text \<open>
  \<^verbatim>\<open>Struct.read\<close>: the loop stops at the first exception, which leaves the heap and the
  stream as they are at that moment.
\<close>

fun Struct_read :: "Struct \<Rightarrow> heap \<Rightarrow> stream \<Rightarrow> error option \<times> heap \<times> stream" where
  "Struct_read [] h s = (None, h, s)"
| "Struct_read (r # rs) h s =
     (case type_read (type (h r)) s of
        (Inl e, s') \<Rightarrow> (Some e, h, s')
      | (Inr v, s') \<Rightarrow> Struct_read rs (h(r := (h r)\<lparr>value := v\<rparr>)) s')"

text \<open>\<^verbatim>\<open>Struct.write\<close> assigns to no field; it returns \<^verbatim>\<open>None\<close>.\<close>

fun Struct_write :: "Struct \<Rightarrow> heap \<Rightarrow> stream \<Rightarrow> error option \<times> stream" where
  "Struct_write [] h s = (None, s)"
| "Struct_write (r # rs) h s =
     (case type_write (type (h r)) s (value (h r)) of
        (Inl e, s') \<Rightarrow> (Some e, s')
      | (Inr n, s') \<Rightarrow> Struct_write rs h s')"

fun Struct_set :: "Struct \<Rightarrow> heap \<Rightarrow> string \<Rightarrow> pyval \<Rightarrow> error option \<times> heap" where
  "Struct_set [] h nm v = (Some (FieldNotFound nm), h)"
| "Struct_set (r # rs) h nm v =
     (if name (h r) = nm then
        (if type_verify (type (h r)) v then (None, h(r := (h r)\<lparr>value := v\<rparr>))
         else (Some (FieldValidationError nm (class_of (type (h r))) (type_of v)), h))
      else Struct_set rs h nm v)"

fun Struct_get :: "Struct \<Rightarrow> heap \<Rightarrow> string \<Rightarrow> error + pyval" where
  "Struct_get [] h nm = Inl (FieldNotFound nm)"
| "Struct_get (r # rs) h nm =
     (if name (h r) = nm then Inr (value (h r)) else Struct_get rs h nm)"

section \<open>Wire layout\<close>

text \<open>
  The declared width of a type: \<^verbatim>\<open>st.calcsize\<close> of the format for the integer classes,
  the constructor argument for \<^verbatim>\<open>String\<close>.
\<close>

fun width :: "Type \<Rightarrow> nat" where
  "width Int8 = calcsize Fmt_b"
| "width Int16 = calcsize Fmt_h"
| "width Int32 = calcsize Fmt_i"
| "width (String n) = nat n"

text \<open>
  The bytes that \<^verbatim>\<open>field.type.write(out_stream, field.value)\<close> hands to
  \<^verbatim>\<open>stream.write\<close>, or the exception raised before anything is written.
\<close>

fun wire_bytes :: "Type \<Rightarrow> pyval \<Rightarrow> error + byte list" where
  "wire_bytes Int8 v = pack Little Fmt_b v"
| "wire_bytes Int16 v = pack Little Fmt_h v"
| "wire_bytes Int32 v = pack Little Fmt_i v"
| "wire_bytes (String n) (PyStr t) =
     (case utf8_encode t of None \<Rightarrow> Inl UnicodeEncodeError | Some bs \<Rightarrow> Inr bs)"
| "wire_bytes (String n) v = Inl AttributeError"


text \<open>
  One integer written to an empty stream by \<^verbatim>\<open>write\<close>, then \<^verbatim>\<open>stream.seek(0)\<close>, then
  \<^verbatim>\<open>read\<close> in the same byte order: the bytes in the stream and what \<^verbatim>\<open>read\<close> returns.
\<close>

definition round_trip ::
  "(stream \<Rightarrow> pyval \<Rightarrow> endian \<Rightarrow> (error + nat) \<times> stream) \<Rightarrow>
   (stream \<Rightarrow> endian \<Rightarrow> (error + pyval) \<times> stream) \<Rightarrow> endian \<Rightarrow> pyval \<Rightarrow>
   byte list \<times> (error + pyval)" where
  "round_trip wr rd e v =
     (case wr \<lparr>data = [], pos = 0\<rparr> v e of
        (n, s1) \<Rightarrow> (data s1, fst (rd (stream_seek s1 0) e)))"

section \<open>Example records\<close>

text \<open>The code points of an ASCII literal.\<close>

definition text_of :: "string \<Rightarrow> pystr" where
  "text_of cs = map of_char cs"

text \<open>A heap to build the examples on: every reference holds an unset, unnamed field.\<close>

definition unset :: heap where
  "unset = (\<lambda>r. \<lparr>name = [], type = Int8, value = PyNone\<rparr>)"

text \<open>\<^verbatim>\<open>Struct(Field("id", Int8), Field("age", Int32))\<close>, at references 0 and 1.\<close>

definition people :: heap where
  "people = unset
     (0 := \<lparr>name = ''id'', type = Int8, value = PyNone\<rparr>,
      1 := \<lparr>name = ''age'', type = Int32, value = PyNone\<rparr>)"

text \<open>\<^verbatim>\<open>Struct(Field("A", Int8, 1), Field("B", Int16, 515))\<close>, at references 0 and 1.\<close>

definition record_AB :: heap where
  "record_AB = unset
     (0 := \<lparr>name = ''A'', type = Int8, value = PyInt 1\<rparr>,
      1 := \<lparr>name = ''B'', type = Int16, value = PyInt 515\<rparr>)"


text \<open>
  \<^verbatim>\<open>Struct(Field("msg", String(5), "hello"))\<close> at reference 0 and a second struct of the
  same schema, unset, at reference 1.
\<close>

definition greeting :: heap where
  "greeting = unset
     (0 := \<lparr>name = ''msg'', type = String 5, value = PyStr (text_of ''hello'')\<rparr>,
      1 := \<lparr>name = ''msg'', type = String 5, value = PyNone\<rparr>)"

section \<open>Streams and codecs\<close>

lemma le_bytes_numeral:
  "le_bytes (numeral k) x = word_of_int x # le_bytes (pred_numeral k) (x div 256)"
  by (simp add: numeral_eq_Suc)

lemma stream_write_snd:
  "snd (stream_write s bs) =
     (if bs = [] then s
      else \<lparr>data = take (pos s) (data s @ replicate (pos s - length (data s)) 0) @ bs
                   @ drop (pos s + length bs) (data s @ replicate (pos s - length (data s)) 0),
            pos = pos s + length bs\<rparr>)"
  by (simp add: stream_write_def Let_def)

lemma stream_write_append:
  "snd (stream_write (snd (stream_write s a)) b) = snd (stream_write s (a @ b))"
proof (cases "a = [] \<or> b = []")
  case True
  then show ?thesis by (auto simp: stream_write_snd)
next
  case False
  define padded where "padded = data s @ replicate (pos s - length (data s)) 0"
  have len: "pos s \<le> length padded" by (simp add: padded_def)
  show ?thesis
    using False len
    by (simp add: stream_write_snd padded_def [symmetric] min_def ac_simps)
qed

lemma length_le_bytes [simp]: "length (le_bytes k x) = k"
  by (induction k arbitrary: x) auto

lemma le_uint_le_bytes: "le_uint (le_bytes k x) = x mod 256 ^ k"
proof (induction k arbitrary: x)
  case 0
  then show ?case by simp
next
  case (Suc k)
  have "uint (word_of_int x :: byte) = x mod 256"
    by (simp add: uint_word_of_int)
  then have "le_uint (le_bytes (Suc k) x) = x mod 256 + 256 * ((x div 256) mod 256 ^ k)"
    using Suc by simp
  also have "\<dots> = x mod 256 ^ Suc k"
    by (simp add: zmod_zmult2_eq)
  finally show ?case .
qed

lemma sign_extend_mod:
  assumes "0 < k" "in_range k x"
  shows "sign_extend k (x mod 256 ^ k) = x"
proof -
  have p: "(256::int) ^ k = 2 ^ (8 * k)" by (simp add: power_mult)
  have h: "(2::int) ^ (8 * k) = 2 * 2 ^ (8 * k - 1)"
    using assms(1) by (metis Suc_pred' mult_pos_pos power_Suc zero_less_numeral)
  show ?thesis
  proof (cases "0 \<le> x")
    case True
    then have "x mod 2 ^ (8 * k) = x" using assms(2) h by (simp add: in_range_def)
    then show ?thesis using assms(2) by (simp add: sign_extend_def p in_range_def)
  next
    case False
    have "(x + 2 ^ (8 * k)) mod 2 ^ (8 * k) = x + 2 ^ (8 * k)"
      using False assms(2) h by (intro mod_pos_pos_trivial) (simp_all add: in_range_def)
    then have "x mod 2 ^ (8 * k) = x + 2 ^ (8 * k)"
      by simp
    then show ?thesis using assms(2) False h by (simp add: sign_extend_def p in_range_def)
  qed
qed

lemma stream_read_short:
  "remaining s < nat n \<Longrightarrow>
   stream_read s n = (drop (pos s) (data s), s\<lparr>pos := pos s + remaining s\<rparr>)"
  by (simp add: stream_read_def remaining_def Let_def)

lemma num_read_short:
  "remaining s < calcsize c \<Longrightarrow>
   num_read c s e = (Inl StructError, s\<lparr>pos := pos s + remaining s\<rparr>)"
  by (simp add: num_read_def stream_read_short unpack_def remaining_def)

section \<open>Reading and writing a struct\<close>

lemma num_write_eq:
  "num_write c s v e =
     (case pack e c v of Inl err \<Rightarrow> (Inl err, s)
      | Inr bs \<Rightarrow> (Inr (length bs), snd (stream_write s bs)))"
  by (simp add: num_write_def stream_write_def Let_def split: sum.splits)

lemma String_write_eq:
  "String_write s v =
     (case wire_bytes (String n) v of Inl err \<Rightarrow> (Inl err, s)
      | Inr bs \<Rightarrow> (Inr (length bs), snd (stream_write s bs)))"
  by (cases v) (simp_all add: stream_write_def Let_def split: option.splits)

lemma type_write_eq:
  "type_write t s v =
     (case wire_bytes t v of Inl err \<Rightarrow> (Inl err, s)
      | Inr bs \<Rightarrow> (Inr (length bs), snd (stream_write s bs)))"
  by (cases t)
     (simp_all add: Int8_write_def Int16_write_def Int32_write_def num_write_eq String_write_eq)

lemma num_read_eq:
  "num_read c s e =
     (let bs = take (calcsize c) (drop (pos s) (data s))
      in (case unpack e c bs of Inl err \<Rightarrow> Inl err | Inr x \<Rightarrow> Inr (PyInt x),
          s\<lparr>pos := pos s + length bs\<rparr>))"
  by (simp add: num_read_def stream_read_def Let_def split: sum.splits)




lemma Struct_read_ConsE:
  assumes "Struct_read (a # fs) h s = (res, h', s')"
  obtains (fail) e where "type_read (type (h a)) s = (Inl e, s')" "res = Some e" "h' = h"
  | (ok) v s1 where "type_read (type (h a)) s = (Inr v, s1)"
      "Struct_read fs (h(a := (h a)\<lparr>value := v\<rparr>)) s1 = (res, h', s')"
proof (cases "type_read (type (h a)) s")
  case (Pair x s1)
  show ?thesis
  proof (cases x)
    case (Inl e)
    have "res = Some e \<and> h' = h \<and> s1 = s'" using assms Pair Inl by simp
    then show ?thesis using Pair Inl by (intro fail [of e]) simp_all
  next
    case (Inr v)
    have "Struct_read fs (h(a := (h a)\<lparr>value := v\<rparr>)) s1 = (res, h', s')"
      using assms Pair Inr by simp
    then show ?thesis using Pair Inr by (intro ok [of v s1]) simp_all
  qed
qed

lemma Struct_read_frame:
  "Struct_read fs h s = (res, h', s') \<Longrightarrow> r \<notin> set fs \<Longrightarrow> h' r = h r"
proof (induction fs arbitrary: h s)
  case Nil
  then show ?case by simp
next
  case (Cons a fs)
  from Cons.prems(1) show ?case
  proof (cases rule: Struct_read_ConsE)
    case (fail e)
    then show ?thesis by simp
  next
    case (ok v s1)
    from Cons.IH [OF ok(2)] Cons.prems(2) show ?thesis by simp
  qed
qed







lemma Struct_read_String_raises:
  "r \<in> set fs \<Longrightarrow> type (h r) = String n \<Longrightarrow> fst (Struct_read fs h s) \<noteq> None"
proof (induction fs arbitrary: h s)
  case Nil
  then show ?case by simp
next
  case (Cons a fs)
  obtain res h' s' where run: "Struct_read (a # fs) h s = (res, h', s')"
    by (cases "Struct_read (a # fs) h s") auto
  then show ?case
  proof (cases rule: Struct_read_ConsE)
    case (fail e)
    then show ?thesis using run by simp
  next
    case (ok v s1)
    then have "type (h a) \<noteq> String n" by auto
    with Cons.prems have "r \<in> set fs" by auto
    moreover have "type ((h(a := (h a)\<lparr>value := v\<rparr>)) r) = String n"
      using Cons.prems(2) by auto
    ultimately have "fst (Struct_read fs (h(a := (h a)\<lparr>value := v\<rparr>)) s1) \<noteq> None"
      by (rule Cons.IH)
    then show ?thesis using ok(2) run by simp
  qed
qed

section \<open>Scanning the fields for a name\<close>

lemma Struct_get_first:
  "\<forall>p\<in>set pre. name (h p) \<noteq> nm \<Longrightarrow> name (h r) = nm \<Longrightarrow>
   Struct_get (pre @ r # post) h nm = Inr (value (h r))"
  by (induction pre) auto

lemma Struct_get_none:
  "\<forall>p\<in>set fs. name (h p) \<noteq> nm \<Longrightarrow> Struct_get fs h nm = Inl (FieldNotFound nm)"
  by (induction fs) auto

lemma Struct_set_first:
  "\<forall>p\<in>set pre. name (h p) \<noteq> nm \<Longrightarrow> name (h r) = nm \<Longrightarrow>
   Struct_set (pre @ r # post) h nm v =
     (if type_verify (type (h r)) v then (None, h(r := (h r)\<lparr>value := v\<rparr>))
      else (Some (FieldValidationError nm (class_of (type (h r))) (type_of v)), h))"
  by (induction pre) auto

lemma Struct_set_none:
  "\<forall>p\<in>set fs. name (h p) \<noteq> nm \<Longrightarrow> Struct_set fs h nm v = (Some (FieldNotFound nm), h)"
  by (induction fs) auto

lemma first_match:
  "\<exists>r\<in>set fs. name (h r) = nm \<Longrightarrow>
   \<exists>pre r post. fs = pre @ r # post \<and> (\<forall>p\<in>set pre. name (h p) \<noteq> nm) \<and> name (h r) = nm"
  using split_list_first_prop [of fs "\<lambda>r. name (h r) = nm"] by blast

lemma Struct_set_cases:
  "Struct_set fs h nm v = (Some (FieldNotFound nm), h) \<and> (\<forall>p\<in>set fs. name (h p) \<noteq> nm) \<or>
   (\<exists>pre r post. fs = pre @ r # post \<and> (\<forall>p\<in>set pre. name (h p) \<noteq> nm) \<and> name (h r) = nm \<and>
      Struct_set fs h nm v =
        (if type_verify (type (h r)) v then (None, h(r := (h r)\<lparr>value := v\<rparr>))
         else (Some (FieldValidationError nm (class_of (type (h r))) (type_of v)), h)))"
proof (cases "\<exists>r\<in>set fs. name (h r) = nm")
  case False
  then have "\<forall>p\<in>set fs. name (h p) \<noteq> nm" by blast
  then show ?thesis using Struct_set_none [of fs h nm v] by blast
next
  case True
  from first_match [OF this] obtain pre r post where
    split: "fs = pre @ r # post" and pre: "\<forall>p\<in>set pre. name (h p) \<noteq> nm" and r: "name (h r) = nm"
    by blast
  from Struct_set_first [OF pre r, of post v] split pre r show ?thesis by blast
qed

lemma type_verify_bool: "\<not> type_verify t (PyBool b)"
  by (cases t) (simp_all add: Int8_verify_def Int16_verify_def Int32_verify_def String_verify_def)


section \<open>The integer types on the wire\<close>

text \<open>
  C7. The least and the greatest value of each signed width, written and read back in
  either byte order: \<^verbatim>\<open>Int8\<close> gives one byte, \<^verbatim>\<open>Int16\<close> two, \<^verbatim>\<open>Int32\<close> four, in two's
  complement, and \<^verbatim>\<open>read\<close> returns the value written.
\<close>

theorem boundary_round_trip:
  "round_trip Int8_write Int8_read Little (PyInt (- 128)) = ([0x80], Inr (PyInt (- 128))) \<and>
   round_trip Int8_write Int8_read Big (PyInt (- 128)) = ([0x80], Inr (PyInt (- 128))) \<and>
   round_trip Int8_write Int8_read Little (PyInt 127) = ([0x7F], Inr (PyInt 127)) \<and>
   round_trip Int8_write Int8_read Big (PyInt 127) = ([0x7F], Inr (PyInt 127)) \<and>
   round_trip Int16_write Int16_read Little (PyInt (- 32768))
     = ([0x00, 0x80], Inr (PyInt (- 32768))) \<and>
   round_trip Int16_write Int16_read Big (PyInt (- 32768))
     = ([0x80, 0x00], Inr (PyInt (- 32768))) \<and>
   round_trip Int16_write Int16_read Little (PyInt 32767) = ([0xFF, 0x7F], Inr (PyInt 32767)) \<and>
   round_trip Int16_write Int16_read Big (PyInt 32767) = ([0x7F, 0xFF], Inr (PyInt 32767)) \<and>
   round_trip Int32_write Int32_read Little (PyInt (- 2147483648))
     = ([0x00, 0x00, 0x00, 0x80], Inr (PyInt (- 2147483648))) \<and>
   round_trip Int32_write Int32_read Big (PyInt (- 2147483648))
     = ([0x80, 0x00, 0x00, 0x00], Inr (PyInt (- 2147483648))) \<and>
   round_trip Int32_write Int32_read Little (PyInt 2147483647)
     = ([0xFF, 0xFF, 0xFF, 0x7F], Inr (PyInt 2147483647)) \<and>
   round_trip Int32_write Int32_read Big (PyInt 2147483647)
     = ([0x7F, 0xFF, 0xFF, 0xFF], Inr (PyInt 2147483647))"
  by (simp add: round_trip_def Int8_write_def Int8_read_def Int16_write_def Int16_read_def
      Int32_write_def Int32_read_def num_write_def num_read_def stream_write_def stream_read_def
      stream_seek_def pack_int_def unpack_def in_range_def sign_extend_def byte_order_def
      le_bytes_numeral Let_def)

text \<open>
  C2, as the code has it. \<^verbatim>\<open>Int8\<close>, \<^verbatim>\<open>Int16\<close> and \<^verbatim>\<open>Int32\<close>, in either byte order:
  on a stream with fewer bytes left than the width, \<^verbatim>\<open>read\<close> raises \<^verbatim>\<open>struct.error\<close>,
  having consumed what was left. \<^verbatim>\<open>String.read(stream, size)\<close> checks no length: with
  fewer than \<^verbatim>\<open>size\<close> bytes left it decodes the bytes that are left, and returns the
  shorter text when they are valid UTF-8.
\<close>

theorem short_read:
  "(remaining s < width Int8 \<longrightarrow>
      Int8_read s e = (Inl StructError, s\<lparr>pos := pos s + remaining s\<rparr>)) \<and>
   (remaining s < width Int16 \<longrightarrow>
      Int16_read s e = (Inl StructError, s\<lparr>pos := pos s + remaining s\<rparr>)) \<and>
   (remaining s < width Int32 \<longrightarrow>
      Int32_read s e = (Inl StructError, s\<lparr>pos := pos s + remaining s\<rparr>)) \<and>
   (remaining s < width (String n) \<longrightarrow>
      String_read s n =
        (case utf8_decode (drop (pos s) (data s)) of
           None \<Rightarrow> Inl UnicodeDecodeError
         | Some t \<Rightarrow> Inr (PyStr t),
         s\<lparr>pos := pos s + remaining s\<rparr>))"
  by (simp add: Int8_read_def Int16_read_def Int32_read_def num_read_short String_read_def
      stream_read_short split: option.splits)

theorem short_read_witness:
  "remaining \<lparr>data = [7], pos = 1\<rparr> < width Int8 \<and>
   Int8_read \<lparr>data = [7], pos = 1\<rparr> Little = (Inl StructError, \<lparr>data = [7], pos = 1\<rparr>) \<and>
   remaining \<lparr>data = [7], pos = 0\<rparr> < width Int16 \<and>
   Int16_read \<lparr>data = [7], pos = 0\<rparr> Big = (Inl StructError, \<lparr>data = [7], pos = 1\<rparr>) \<and>
   remaining \<lparr>data = [7, 8, 9], pos = 0\<rparr> < width Int32 \<and>
   Int32_read \<lparr>data = [7, 8, 9], pos = 0\<rparr> Little = (Inl StructError, \<lparr>data = [7, 8, 9], pos = 3\<rparr>) \<and>
   remaining \<lparr>data = [104, 101, 108], pos = 0\<rparr> < width (String 5) \<and>
   String_read \<lparr>data = [104, 101, 108], pos = 0\<rparr> 5 =
     (Inr (PyStr [104, 101, 108]), \<lparr>data = [104, 101, 108], pos = 3\<rparr>)"
proof -
  have a: "remaining \<lparr>data = [7], pos = 1\<rparr> < width Int8"
    "remaining \<lparr>data = [7], pos = 0\<rparr> < width Int16"
    "remaining \<lparr>data = [7, 8, 9], pos = 0\<rparr> < width Int32"
    "remaining \<lparr>data = [104, 101, 108], pos = 0\<rparr> < width (String 5)"
    by (simp_all add: remaining_def)
  have b: "remaining \<lparr>data = [7], pos = 1\<rparr> = 0" "remaining \<lparr>data = [7], pos = 0\<rparr> = 1"
    "remaining \<lparr>data = [7, 8, 9], pos = 0\<rparr> = 3"  "remaining \<lparr>data = [104, 101, 108], pos = 0\<rparr> = 3"
    by (simp_all add: remaining_def)
  have c: "utf8_decode (drop (pos \<lparr>data = [104, 101, 108], pos = 0\<rparr>)
             (data \<lparr>data = [104, 101, 108], pos = 0\<rparr>)) = Some [104, 101, 108]"
    by simp
  show ?thesis
    using a b
      short_read [of "\<lparr>data = [7], pos = 1\<rparr>" Little]
      short_read [of "\<lparr>data = [7], pos = 0\<rparr>" Big]
      short_read [of "\<lparr>data = [7, 8, 9], pos = 0\<rparr>" Little]
      short_read [of "\<lparr>data = [104, 101, 108], pos = 0\<rparr>" _ 5]
    by (simp add: c)
qed

text \<open>
  C2 as stated fails for \<^verbatim>\<open>String\<close>: three bytes are left, \<^verbatim>\<open>String(5)\<close> declares
  five, and \<^verbatim>\<open>String.read(stream, 5)\<close> returns the three-character text \<^verbatim>\<open>"hel"\<close>.
\<close>

theorem String_read_short_stream:
  "remaining \<lparr>data = [104, 101, 108], pos = 0\<rparr> < width (String 5) \<and>
   String_read \<lparr>data = [104, 101, 108], pos = 0\<rparr> 5 =
     (Inr (PyStr (text_of ''hel'')), \<lparr>data = [104, 101, 108], pos = 3\<rparr>)"
  by (simp add: remaining_def String_read_def stream_read_def text_of_def Let_def)

section \<open>Access by name\<close>

text \<open>
  C3. When some field of the struct has the name, \<^verbatim>\<open>set(name, value)\<close> decides on the
  first such field \<open>r\<close> by \<^verbatim>\<open>r.type.verify(value)\<close>. If it holds, \<^verbatim>\<open>set\<close> returns
  normally, the only change is \<^verbatim>\<open>r.value = value\<close>, and \<^verbatim>\<open>get(name)\<close> then returns the
  value. If it does not, \<^verbatim>\<open>set\<close> raises \<^verbatim>\<open>FieldValidationError\<close> whose message names the
  field, and the heap is unchanged.
\<close>

theorem set_then_get:
  assumes "\<exists>r\<in>set fs. name (h r) = nm"
  shows "\<exists>pre r post. fs = pre @ r # post \<and> (\<forall>p\<in>set pre. name (h p) \<noteq> nm) \<and> name (h r) = nm \<and>
     (if type_verify (type (h r)) v
      then Struct_set fs h nm v = (None, h(r := (h r)\<lparr>value := v\<rparr>)) \<and>
           Struct_get fs (h(r := (h r)\<lparr>value := v\<rparr>)) nm = Inr v
      else Struct_set fs h nm v =
             (Some (FieldValidationError nm (class_of (type (h r))) (type_of v)), h))"
proof -
  from first_match [OF assms] obtain pre r post where
    split: "fs = pre @ r # post" and pre: "\<forall>p\<in>set pre. name (h p) \<noteq> nm" and r: "name (h r) = nm"
    by blast
  let ?h' = "h(r := (h r)\<lparr>value := v\<rparr>)"
  have "\<forall>p\<in>set pre. name (?h' p) \<noteq> nm" using pre r by auto
  moreover have "name (?h' r) = nm" using r by simp
  ultimately have "Struct_get (pre @ r # post) ?h' nm = Inr (value (?h' r))"
    by (rule Struct_get_first)
  then have get: "Struct_get fs ?h' nm = Inr v" using split by simp
  have set: "Struct_set fs h nm v =
     (if type_verify (type (h r)) v then (None, ?h')
      else (Some (FieldValidationError nm (class_of (type (h r))) (type_of v)), h))"
    unfolding split using pre r by (rule Struct_set_first)
  show ?thesis
    using split pre r get set by (intro exI [of _ pre] exI [of _ r] exI [of _ post]) simp
qed

text \<open>
  On a struct with an \<^verbatim>\<open>Int32\<close> field \<^verbatim>\<open>age\<close>: \<^verbatim>\<open>set("age", 42)\<close> succeeds and
  \<^verbatim>\<open>get("age")\<close> is 42; \<^verbatim>\<open>set("age", "not-a-number")\<close> raises
  \<^verbatim>\<open>FieldValidationError\<close>.
\<close>

theorem set_then_get_witness:
  "(\<exists>r\<in>set [0, 1]. name (people r) = ''age'') \<and>
   (\<exists>pre r post. [0, 1] = pre @ r # post \<and> (\<forall>p\<in>set pre. name (people p) \<noteq> ''age'') \<and>
      name (people r) = ''age'' \<and>
      (if type_verify (type (people r)) (PyInt 42)
       then Struct_set [0, 1] people ''age'' (PyInt 42) =
              (None, people(r := (people r)\<lparr>value := PyInt 42\<rparr>)) \<and>
            Struct_get [0, 1] (people(r := (people r)\<lparr>value := PyInt 42\<rparr>)) ''age'' = Inr (PyInt 42)
       else Struct_set [0, 1] people ''age'' (PyInt 42) =
              (Some (FieldValidationError ''age'' (class_of (type (people r))) (type_of (PyInt 42))),
               people))) \<and>
   Struct_set [0, 1] people ''age'' (PyInt 42) =
     (None, people(1 := (people 1)\<lparr>value := PyInt 42\<rparr>)) \<and>
   Struct_get [0, 1] (people(1 := (people 1)\<lparr>value := PyInt 42\<rparr>)) ''age'' = Inr (PyInt 42) \<and>
   Struct_set [0, 1] people ''age'' (PyStr (text_of ''not-a-number'')) =
     (Some (FieldValidationError ''age'' Int32_cls TStr), people)"
proof -
  have m: "\<exists>r\<in>set [0, 1]. name (people r) = ''age''"
    by (simp add: people_def unset_def)
  have a: "Struct_set [0, 1] people ''age'' (PyInt 42) =
     (None, people(1 := (people 1)\<lparr>value := PyInt 42\<rparr>))"
    by (simp add: people_def unset_def Int32_verify_def)
  have b: "Struct_get [0, 1] (people(1 := (people 1)\<lparr>value := PyInt 42\<rparr>)) ''age'' = Inr (PyInt 42)"
    by (simp add: people_def unset_def)
  have c: "Struct_set [0, 1] people ''age'' (PyStr (text_of ''not-a-number'')) =
     (Some (FieldValidationError ''age'' Int32_cls TStr), people)"
    by (simp add: people_def unset_def Int32_verify_def)
  from set_then_get [OF m, of "PyInt 42"] m a b c show ?thesis by blast
qed

text \<open>
  C4. When no field of the struct has the name, \<^verbatim>\<open>get(name)\<close> and
  \<^verbatim>\<open>set(name, value)\<close> both raise \<^verbatim>\<open>FieldNotFound(name)\<close>, and \<^verbatim>\<open>set\<close> changes
  nothing. When a field \<open>r\<close> has the name and no field before it has, \<^verbatim>\<open>get(name)\<close>
  returns the value of \<open>r\<close>, whatever follows \<open>r\<close>.
\<close>

theorem missing_name_not_found:
  "((\<forall>r\<in>set fs. name (h r) \<noteq> nm) \<longrightarrow>
      Struct_get fs h nm = Inl (FieldNotFound nm) \<and>
      Struct_set fs h nm v = (Some (FieldNotFound nm), h)) \<and>
   ((\<forall>p\<in>set pre. name (h p) \<noteq> nm) \<and> name (h r) = nm \<longrightarrow>
      Struct_get (pre @ r # post) h nm = Inr (value (h r)))"
  using Struct_get_none [of fs h nm] Struct_set_none [of fs h nm v]
    Struct_get_first [of pre h nm r post]
  by blast

theorem missing_name_not_found_witness:
  "name (people 0) \<noteq> ''missing'' \<and> name (people 1) \<noteq> ''missing'' \<and>
   Struct_get [0, 1] people ''missing'' = Inl (FieldNotFound ''missing'') \<and>
   Struct_set [0, 1] people ''missing'' (PyInt 1) = (Some (FieldNotFound ''missing''), people) \<and>
   name (record_AB 0) \<noteq> ''B'' \<and> name (record_AB 1) = ''B'' \<and>
   Struct_get ([0] @ 1 # []) record_AB ''B'' = Inr (value (record_AB 1)) \<and>
   value (record_AB 1) = PyInt 515"
proof -
  have a0: "name (people 0) \<noteq> ''missing'' \<and> name (people 1) \<noteq> ''missing''"
    by (simp add: people_def unset_def)
  then have a: "\<forall>r\<in>set [0, 1]. name (people r) \<noteq> ''missing''" by simp
  have b0: "name (record_AB 0) \<noteq> ''B'' \<and> name (record_AB 1) = ''B''"
    by (simp add: record_AB_def unset_def)
  then have b: "(\<forall>p\<in>set [0]. name (record_AB p) \<noteq> ''B'') \<and> name (record_AB 1) = ''B''" by simp
  have c: "value (record_AB 1) = PyInt 515" by (simp add: record_AB_def)
  from missing_name_not_found [where fs = "[0, 1]" and h = people and nm = "''missing''"] a
  have d: "Struct_get [0, 1] people ''missing'' = Inl (FieldNotFound ''missing'') \<and>
      Struct_set [0, 1] people ''missing'' (PyInt 1) = (Some (FieldNotFound ''missing''), people)"
    by blast
  from missing_name_not_found [where h = record_AB and nm = "''B''" and pre = "[0]" and r = 1] b
  have e: "Struct_get ([0] @ 1 # []) record_AB ''B'' = Inr (value (record_AB 1))"
    by blast
  from a0 b0 c d e show ?thesis by blast
qed

text \<open>
  C9. A \<^verbatim>\<open>set\<close> that returns normally has assigned the value to the first field with
  the name; that field keeps its name and type, and every other object of the heap is
  as it was. A \<^verbatim>\<open>set\<close> that raises leaves the whole heap as it was.
\<close>

theorem Struct_set_frame:
  "(Struct_set fs h nm v = (None, h') \<longrightarrow>
      (\<exists>pre r post. fs = pre @ r # post \<and> (\<forall>p\<in>set pre. name (h p) \<noteq> nm) \<and> name (h r) = nm \<and>
         value (h' r) = v \<and> name (h' r) = name (h r) \<and> type (h' r) = type (h r) \<and>
         (\<forall>q. q \<noteq> r \<longrightarrow> h' q = h q))) \<and>
   (Struct_set fs h nm v = (Some e, h') \<longrightarrow> h' = h)"
proof (intro conjI impI)
  assume ok: "Struct_set fs h nm v = (None, h')"
  from Struct_set_cases [of fs h nm v] ok obtain pre r post where
    split: "fs = pre @ r # post" and pre: "\<forall>p\<in>set pre. name (h p) \<noteq> nm" and r: "name (h r) = nm" and
    eq: "Struct_set fs h nm v =
        (if type_verify (type (h r)) v then (None, h(r := (h r)\<lparr>value := v\<rparr>))
         else (Some (FieldValidationError nm (class_of (type (h r))) (type_of v)), h))"
    by auto
  from eq ok have h': "h' = h(r := (h r)\<lparr>value := v\<rparr>)" by (simp split: if_splits)
  have "value (h' r) = v \<and> name (h' r) = name (h r) \<and> type (h' r) = type (h r) \<and>
         (\<forall>q. q \<noteq> r \<longrightarrow> h' q = h q)"
    by (simp add: h')
  with split pre r
  show "\<exists>pre r post. fs = pre @ r # post \<and> (\<forall>p\<in>set pre. name (h p) \<noteq> nm) \<and> name (h r) = nm \<and>
         value (h' r) = v \<and> name (h' r) = name (h r) \<and> type (h' r) = type (h r) \<and>
         (\<forall>q. q \<noteq> r \<longrightarrow> h' q = h q)"
    by blast
next
  assume "Struct_set fs h nm v = (Some e, h')"
  with Struct_set_cases [of fs h nm v] show "h' = h" by (auto split: if_splits)
qed

theorem Struct_set_frame_witness:
  "Struct_set [0, 1] people ''age'' (PyInt 42) = (None, people(1 := (people 1)\<lparr>value := PyInt 42\<rparr>)) \<and>
   (\<exists>pre r post. [0, 1] = pre @ r # post \<and> (\<forall>p\<in>set pre. name (people p) \<noteq> ''age'') \<and>
      name (people r) = ''age'' \<and>
      value ((people(1 := (people 1)\<lparr>value := PyInt 42\<rparr>)) r) = PyInt 42 \<and>
      name ((people(1 := (people 1)\<lparr>value := PyInt 42\<rparr>)) r) = name (people r) \<and>
      type ((people(1 := (people 1)\<lparr>value := PyInt 42\<rparr>)) r) = type (people r) \<and>
      (\<forall>q. q \<noteq> r \<longrightarrow> (people(1 := (people 1)\<lparr>value := PyInt 42\<rparr>)) q = people q)) \<and>
   Struct_set [0, 1] people ''age'' (PyBool True) =
     (Some (FieldValidationError ''age'' Int32_cls TBool), people) \<and>
   Struct_set [0, 1] people ''missing'' (PyInt 42) = (Some (FieldNotFound ''missing''), people)"
proof -
  have a: "Struct_set [0, 1] people ''age'' (PyInt 42) =
     (None, people(1 := (people 1)\<lparr>value := PyInt 42\<rparr>))"
    by (simp add: people_def unset_def Int32_verify_def)
  have b: "Struct_set [0, 1] people ''age'' (PyBool True) =
     (Some (FieldValidationError ''age'' Int32_cls TBool), people)"
    by (simp add: people_def unset_def Int32_verify_def)
  have c: "Struct_set [0, 1] people ''missing'' (PyInt 42) = (Some (FieldNotFound ''missing''), people)"
    by (simp add: people_def unset_def)
  from Struct_set_frame [of "[0, 1]" people "''age''" "PyInt 42"
      "people(1 := (people 1)\<lparr>value := PyInt 42\<rparr>)"] a b c
  show ?thesis by blast
qed

section \<open>Validation\<close>

text \<open>
  C6. \<^verbatim>\<open>verify\<close> of \<^verbatim>\<open>Int8\<close>, \<^verbatim>\<open>Int16\<close> and \<^verbatim>\<open>Int32\<close> holds exactly for the values
  whose runtime type is \<^verbatim>\<open>int\<close>: for every integer \<open>n\<close>, whatever its magnitude, and
  for no text value.
\<close>

theorem int_verify_type_check:
  "Int8_verify v = (\<exists>n. v = PyInt n) \<and> Int16_verify v = (\<exists>n. v = PyInt n) \<and>
   Int32_verify v = (\<exists>n. v = PyInt n) \<and>
   Int8_verify (PyInt n) \<and> Int16_verify (PyInt n) \<and> Int32_verify (PyInt n) \<and>
   \<not> Int8_verify (PyStr t) \<and> \<not> Int16_verify (PyStr t) \<and> \<not> Int32_verify (PyStr t)"
  by (cases v) (simp_all add: Int8_verify_def Int16_verify_def Int32_verify_def)

text \<open>
  C10. \<^verbatim>\<open>type(obj) == int\<close> is false for a \<^verbatim>\<open>bool\<close>, so the three integer
  \<^verbatim>\<open>verify\<close> reject \<^verbatim>\<open>True\<close> and \<^verbatim>\<open>False\<close>. On a struct that has a field \<open>r\<close> of an
  integer type, \<^verbatim>\<open>set\<close> with the name of \<open>r\<close> and a \<^verbatim>\<open>bool\<close> raises
  \<^verbatim>\<open>FieldValidationError\<close> and changes nothing; when no earlier field shares the name,
  the error reports the class of \<open>r\<close>.
\<close>

theorem bool_rejected:
  "\<not> Int8_verify (PyBool b) \<and> \<not> Int16_verify (PyBool b) \<and> \<not> Int32_verify (PyBool b) \<and>
   (r \<in> set fs \<and> type (h r) \<in> {Int8, Int16, Int32} \<longrightarrow>
      (\<exists>c. Struct_set fs h (name (h r)) (PyBool b) =
             (Some (FieldValidationError (name (h r)) c TBool), h))) \<and>
   ((\<forall>p\<in>set pre. name (h p) \<noteq> name (h r)) \<and> type (h r) \<in> {Int8, Int16, Int32} \<longrightarrow>
      Struct_set (pre @ r # post) h (name (h r)) (PyBool b) =
        (Some (FieldValidationError (name (h r)) (class_of (type (h r))) TBool), h))"
proof (intro conjI impI)
  show "\<not> Int8_verify (PyBool b)" "\<not> Int16_verify (PyBool b)" "\<not> Int32_verify (PyBool b)"
    by (simp_all add: Int8_verify_def Int16_verify_def Int32_verify_def)
next
  assume a: "r \<in> set fs \<and> type (h r) \<in> {Int8, Int16, Int32}"
  then have "\<not> (\<forall>p\<in>set fs. name (h p) \<noteq> name (h r))" by blast
  with Struct_set_cases [of fs h "name (h r)" "PyBool b"]
  show "\<exists>c. Struct_set fs h (name (h r)) (PyBool b) =
             (Some (FieldValidationError (name (h r)) c TBool), h)"
    by (auto simp: type_verify_bool)
next
  assume a: "(\<forall>p\<in>set pre. name (h p) \<noteq> name (h r)) \<and> type (h r) \<in> {Int8, Int16, Int32}"
  then have "\<forall>p\<in>set pre. name (h p) \<noteq> name (h r)" by blast
  from Struct_set_first [OF this refl, of post "PyBool b"]
  show "Struct_set (pre @ r # post) h (name (h r)) (PyBool b) =
        (Some (FieldValidationError (name (h r)) (class_of (type (h r))) TBool), h)"
    by (simp add: type_verify_bool)
qed

theorem bool_rejected_witness:
  "1 \<in> set [0, 1 :: ref] \<and> type (people 1) \<in> {Int8, Int16, Int32} \<and>
   name (people 0) \<noteq> name (people 1) \<and>
   Struct_set ([0] @ 1 # []) people (name (people 1)) (PyBool True) =
     (Some (FieldValidationError (name (people 1)) (class_of (type (people 1))) TBool), people) \<and>
   Struct_set [0, 1] people ''age'' (PyBool True) =
     (Some (FieldValidationError ''age'' Int32_cls TBool), people)"
proof -
  have a: "1 \<in> set [0, 1 :: ref] \<and> type (people 1) \<in> {Int8, Int16, Int32}"
    by (simp add: people_def)
  have b0: "name (people 0) \<noteq> name (people 1)"
    by (simp add: people_def unset_def)
  then have b: "\<forall>p\<in>set [0]. name (people p) \<noteq> name (people 1)" by simp
  have c: "name (people 1) = ''age''" "class_of (type (people 1)) = Int32_cls"
    by (simp_all add: people_def)
  from bool_rejected [of True 1 "[0, 1]" people "[0]" "[]"] a b
  have "Struct_set ([0] @ 1 # []) people (name (people 1)) (PyBool True) =
     (Some (FieldValidationError (name (people 1)) (class_of (type (people 1))) TBool), people)"
    by blast
  with a b0 c show ?thesis by simp
qed

section \<open>Declaration order\<close>



section \<open>Partial failure of \<^verbatim>\<open>Struct.read\<close>\<close>



section \<open>Round trips\<close>

subsection \<open>An integer type: write, seek back, read, in either byte order\<close>

lemma byte_order_involution: "byte_order e (byte_order e bs) = bs"
  by (cases e) (simp_all add: byte_order_def)

lemma length_byte_order: "length (byte_order e bs) = length bs"
  by (cases e) (simp_all add: byte_order_def)

lemma calcsize_pos: "0 < calcsize c"
  by (cases c) simp_all

lemma unpack_pack_int:
  "pack_int e c x = Inr bs \<Longrightarrow> unpack e c bs = Inr x \<and> length bs = calcsize c"
  by (auto simp: pack_int_def unpack_def byte_order_involution length_byte_order
      le_uint_le_bytes sign_extend_mod calcsize_pos split: if_splits)

lemma stream_write_data:
  "\<exists>rest. drop (pos s) (data (snd (stream_write s bs))) = bs @ rest \<and>
          pos (snd (stream_write s bs)) = pos s + length bs"
  by (simp add: stream_write_snd)

lemma num_read_at:
  assumes "unpack e c bs = Inr x" and "drop (pos s) (data s) = bs @ rest"
  shows "num_read c s e = (Inr (PyInt x), s\<lparr>pos := pos s + calcsize c\<rparr>)"
proof -
  have len: "length bs = calcsize c"
    using assms(1) by (simp add: unpack_def split: if_splits)
  then have "take (calcsize c) (drop (pos s) (data s)) = bs"
    using assms(2) by simp
  then show ?thesis using assms(1) len by (simp add: num_read_eq)
qed

lemma num_write_read:
  assumes "in_range (calcsize c) x"
  shows "\<exists>s1. num_write c s (PyInt x) e = (Inr (calcsize c), s1) \<and>
              num_read c (stream_seek s1 (pos s)) e = (Inr (PyInt x), s1)"
proof -
  let ?bs = "byte_order e (le_bytes (calcsize c) x)"
  let ?s1 = "snd (stream_write s ?bs)"
  have p: "pack_int e c x = Inr ?bs" using assms by (simp add: pack_int_def)
  from unpack_pack_int [OF p] have u: "unpack e c ?bs = Inr x" and len: "length ?bs = calcsize c"
    by simp_all
  have w: "num_write c s (PyInt x) e = (Inr (calcsize c), ?s1)"
    using p len by (simp add: num_write_eq)
  from stream_write_data [of s ?bs] obtain rest where
    d: "drop (pos s) (data ?s1) = ?bs @ rest" and ps: "pos ?s1 = pos s + length ?bs"
    by blast
  have "drop (pos (stream_seek ?s1 (pos s))) (data (stream_seek ?s1 (pos s))) = ?bs @ rest"
    using d by (simp add: stream_seek_def)
  from num_read_at [OF u this]
  have "num_read c (stream_seek ?s1 (pos s)) e = (Inr (PyInt x), ?s1)"
    using ps len by (simp add: stream_seek_def)
  with w show ?thesis by blast
qed

lemma Int_write_read:
  "in_range 1 x \<Longrightarrow> \<exists>s1. Int8_write s (PyInt x) e = (Inr 1, s1) \<and>
      Int8_read (stream_seek s1 (pos s)) e = (Inr (PyInt x), s1)"
  "in_range 2 x \<Longrightarrow> \<exists>s1. Int16_write s (PyInt x) e = (Inr 2, s1) \<and>
      Int16_read (stream_seek s1 (pos s)) e = (Inr (PyInt x), s1)"
  "in_range 4 x \<Longrightarrow> \<exists>s1. Int32_write s (PyInt x) e = (Inr 4, s1) \<and>
      Int32_read (stream_seek s1 (pos s)) e = (Inr (PyInt x), s1)"
  using num_write_read [of Fmt_b x s e] num_write_read [of Fmt_h x s e]
    num_write_read [of Fmt_i x s e]
  by (simp_all add: Int8_write_def Int8_read_def Int16_write_def Int16_read_def
      Int32_write_def Int32_read_def)

subsection \<open>A struct of integer fields\<close>

text \<open>
  Every field holds an integer that fits its width; the target struct has the same
  types in the same order and distinct fields (it may be the source struct itself).
  Then \<^verbatim>\<open>write\<close>, \<^verbatim>\<open>seek\<close> back to the start position and \<^verbatim>\<open>read\<close> return normally
  and the target fields hold the source values.
\<close>

lemma Struct_write_all:
  "map (\<lambda>r. wire_bytes (type (h r)) (value (h r))) fs = map Inr chunks \<Longrightarrow>
   Struct_write fs h s = (None, snd (stream_write s (concat chunks)))"
proof (induction fs arbitrary: chunks s)
  case Nil
  then show ?case by (simp add: stream_write_def)
next
  case (Cons r fs)
  then obtain bs cs where chunks: "chunks = bs # cs" and
    bs: "wire_bytes (type (h r)) (value (h r)) = Inr bs" and
    cs: "map (\<lambda>r. wire_bytes (type (h r)) (value (h r))) fs = map Inr cs"
    by (cases chunks) auto
  from Cons.IH [OF cs] show ?case
    by (simp add: chunks bs type_write_eq stream_write_append)
qed

lemma int_wire_bytes:
  assumes "t \<in> {Int8, Int16, Int32}" and "in_range (width t) x"
  shows "\<exists>bs. wire_bytes t (PyInt x) = Inr bs \<and> length bs = width t \<and>
     (\<forall>s rest. drop (pos s) (data s) = bs @ rest \<longrightarrow>
        type_read t s = (Inr (PyInt x), s\<lparr>pos := pos s + width t\<rparr>))"
proof -
  have gen: "\<exists>bs. pack Little c (PyInt x) = Inr bs \<and> length bs = calcsize c \<and>
     (\<forall>s rest. drop (pos s) (data s) = bs @ rest \<longrightarrow>
        num_read c s Little = (Inr (PyInt x), s\<lparr>pos := pos s + calcsize c\<rparr>))"
    if "in_range (calcsize c) x" for c
  proof -
    from that obtain bs where p: "pack_int Little c x = Inr bs"
      by (simp add: pack_int_def)
    from unpack_pack_int [OF p] num_read_at [of Little c bs x] p show ?thesis
      by auto
  qed
  from assms show ?thesis
    using gen [of Fmt_b] gen [of Fmt_h] gen [of Fmt_i]
    by (auto simp: Int8_read_def Int16_read_def Int32_read_def)
qed

lemma Struct_read_back:
  assumes "length fs2 = length fs" and "length fs = length chunks" and "distinct fs2"
    and "\<forall>j<length fs. type (h2 (fs2 ! j)) = type (h (fs ! j))"
    and "\<forall>j<length fs. \<forall>s rest. drop (pos s) (data s) = chunks ! j @ rest \<longrightarrow>
           type_read (type (h (fs ! j))) s =
             (Inr (value (h (fs ! j))), s\<lparr>pos := pos s + length (chunks ! j)\<rparr>)"
    and "drop (pos s) (data s) = concat chunks @ rest"
  shows "\<exists>h'. Struct_read fs2 h2 s = (None, h', s\<lparr>pos := pos s + length (concat chunks)\<rparr>) \<and>
     map (\<lambda>r. value (h' r)) fs2 = map (\<lambda>r. value (h r)) fs"
  using assms
proof (induction fs2 fs chunks arbitrary: h2 s rule: list_induct3)
  case Nil
  then show ?case by simp
next
  case (Cons r2 fs2 r fs c chunks)
  let ?v = "value (h r)"
  let ?h1 = "h2(r2 := (h2 r2)\<lparr>value := ?v\<rparr>)"
  let ?s1 = "s\<lparr>pos := pos s + length c\<rparr>"
  have ty: "type (h2 r2) = type (h r)" using Cons.prems(2) by auto
  have "drop (pos s) (data s) = c @ (concat chunks @ rest)" using Cons.prems(4) by simp
  with Cons.prems(3) have rd: "type_read (type (h r)) s = (Inr ?v, ?s1)"
    by (metis length_Cons nth_Cons_0 zero_less_Suc)
  have d: "distinct fs2" and notin: "r2 \<notin> set fs2" using Cons.prems(1) by simp_all
  have tys: "\<forall>j<length fs. type (?h1 (fs2 ! j)) = type (h (fs ! j))"
  proof (intro allI impI)
    fix j assume "j < length fs"
    then have "type (h2 ((r2 # fs2) ! Suc j)) = type (h ((r # fs) ! Suc j))"
      using Cons.prems(2) by (metis Suc_less_eq length_Cons)
    then show "type (?h1 (fs2 ! j)) = type (h (fs ! j))" by auto
  qed
  have rds: "\<forall>j<length fs. \<forall>s rest. drop (pos s) (data s) = chunks ! j @ rest \<longrightarrow>
           type_read (type (h (fs ! j))) s =
             (Inr (value (h (fs ! j))), s\<lparr>pos := pos s + length (chunks ! j)\<rparr>)"
  proof (intro allI impI)
    fix j and s :: stream and rest
    assume j: "j < length fs" and dr: "drop (pos s) (data s) = chunks ! j @ rest"
    have "Suc j < length (r # fs)" using j by simp
    with Cons.prems(3) dr show "type_read (type (h (fs ! j))) s =
             (Inr (value (h (fs ! j))), s\<lparr>pos := pos s + length (chunks ! j)\<rparr>)"
      by (metis nth_Cons_Suc)
  qed
  have dr1: "drop (pos ?s1) (data ?s1) = concat chunks @ rest"
  proof -
    have "drop (pos s + length c) (data s) = drop (length c) (drop (pos s) (data s))"
      by (simp add: add.commute)
    then show ?thesis using Cons.prems(4) by simp
  qed
  from Cons.IH [OF d tys rds dr1] obtain h' where
    run: "Struct_read fs2 ?h1 ?s1 = (None, h', ?s1\<lparr>pos := pos ?s1 + length (concat chunks)\<rparr>)" and
    vals: "map (\<lambda>r. value (h' r)) fs2 = map (\<lambda>r. value (h r)) fs"
    by blast
  from Struct_read_frame [OF run notin] have "value (h' r2) = ?v" by simp
  moreover have "Struct_read (r2 # fs2) h2 s =
      (None, h', s\<lparr>pos := pos s + length (concat (c # chunks))\<rparr>)"
    using run rd ty by (simp add: add.assoc)
  ultimately show ?case using vals by simp
qed

lemma int_struct_round_trip:
  assumes ints: "\<forall>r\<in>set fs. type (h r) \<in> {Int8, Int16, Int32} \<and>
            (\<exists>x. value (h r) = PyInt x \<and> in_range (width (type (h r))) x)"
    and schema: "map (\<lambda>r. type (h r)) fs2 = map (\<lambda>r. type (h r)) fs"
    and fresh: "distinct fs2"
  shows "\<exists>s1 h'. Struct_write fs h s = (None, s1) \<and>
           Struct_read fs2 h (stream_seek s1 (pos s)) = (None, h', s1) \<and>
           map (\<lambda>r. value (h' r)) fs2 = map (\<lambda>r. value (h r)) fs"
proof -
  have each: "\<exists>bs. wire_bytes (type (h r)) (value (h r)) = Inr bs \<and> length bs = width (type (h r)) \<and>
     (\<forall>s rest. drop (pos s) (data s) = bs @ rest \<longrightarrow>
        type_read (type (h r)) s = (Inr (value (h r)), s\<lparr>pos := pos s + length bs\<rparr>))"
    if "r \<in> set fs" for r
  proof -
    from ints that obtain x where t: "type (h r) \<in> {Int8, Int16, Int32}" and
      v: "value (h r) = PyInt x" and x: "in_range (width (type (h r))) x"
      by blast
    from int_wire_bytes [OF t x] show ?thesis unfolding v by metis
  qed
  then have "\<forall>r\<in>set fs. \<exists>bs. wire_bytes (type (h r)) (value (h r)) = Inr bs \<and>
     length bs = width (type (h r)) \<and>
     (\<forall>s rest. drop (pos s) (data s) = bs @ rest \<longrightarrow>
        type_read (type (h r)) s = (Inr (value (h r)), s\<lparr>pos := pos s + length bs\<rparr>))"
    by blast
  from bchoice [OF this] obtain f where
    f: "\<forall>r\<in>set fs. wire_bytes (type (h r)) (value (h r)) = Inr (f r) \<and>
     length (f r) = width (type (h r)) \<and>
     (\<forall>s rest. drop (pos s) (data s) = f r @ rest \<longrightarrow>
        type_read (type (h r)) s = (Inr (value (h r)), s\<lparr>pos := pos s + length (f r)\<rparr>))"
    by blast
  define chunks where "chunks = map f fs"
  have len: "length chunks = length fs" by (simp add: chunks_def)
  have wb: "\<forall>j<length fs. wire_bytes (type (h (fs ! j))) (value (h (fs ! j))) = Inr (chunks ! j)"
    using f by (simp add: chunks_def)
  have rb: "\<forall>j<length fs. \<forall>s rest. drop (pos s) (data s) = chunks ! j @ rest \<longrightarrow>
          type_read (type (h (fs ! j))) s =
            (Inr (value (h (fs ! j))), s\<lparr>pos := pos s + length (chunks ! j)\<rparr>)"
    using f by (simp add: chunks_def)
  have "map (\<lambda>r. wire_bytes (type (h r)) (value (h r))) fs = map Inr chunks"
    using len wb by (simp add: list_eq_iff_nth_eq)
  then have w: "Struct_write fs h s = (None, snd (stream_write s (concat chunks)))"
    by (rule Struct_write_all)
  let ?s1 = "snd (stream_write s (concat chunks))"
  from stream_write_data [of s "concat chunks"] obtain rest where
    d: "drop (pos s) (data ?s1) = concat chunks @ rest" and
    ps: "pos ?s1 = pos s + length (concat chunks)"
    by blast
  have len2: "length fs2 = length fs" using schema by (metis length_map)
  have tys: "\<forall>j<length fs. type (h (fs2 ! j)) = type (h (fs ! j))"
    using schema len2 by (metis nth_map)
  have d': "drop (pos (stream_seek ?s1 (pos s))) (data (stream_seek ?s1 (pos s))) = concat chunks @ rest"
    using d by (simp add: stream_seek_def)
  from Struct_read_back [OF len2 len [symmetric] fresh tys rb d'] obtain h' where
    "Struct_read fs2 h (stream_seek ?s1 (pos s)) =
       (None, h', (stream_seek ?s1 (pos s))\<lparr>pos := pos (stream_seek ?s1 (pos s)) + length (concat chunks)\<rparr>)"
    and vals: "map (\<lambda>r. value (h' r)) fs2 = map (\<lambda>r. value (h r)) fs"
    by blast
  then have "Struct_read fs2 h (stream_seek ?s1 (pos s)) = (None, h', ?s1)"
    using ps by (simp add: stream_seek_def)
  with w vals show ?thesis by blast
qed

subsection \<open>UTF-8: decoding an encoding\<close>

lemma unat_byte: "n < 256 \<Longrightarrow> unat (of_nat n :: byte) = n"
  by (simp add: unat_of_nat)

lemma unat_cont: "unat (cont x) = 128 + x mod 64"
proof -
  have "128 + x mod 64 < 256" by simp
  then show ?thesis unfolding cont_def by (rule unat_byte)
qed

lemma low6_eq: "x < 64 \<Longrightarrow> unat b = 128 + x \<Longrightarrow> low6 b = x"
proof -
  assume x: "x < 64" and b: "unat b = 128 + x"
  have "(64 * 2 + x) mod 64 = x mod 64" by (rule mod_mult_self4)
  then show ?thesis using x by (simp add: low6_def b)
qed

lemma digits2:
  fixes c :: nat
  shows "c = c div 64 * 64 + c mod 64"
  by simp

lemma digits3:
  fixes c :: nat
  shows "c = c div 4096 * 4096 + c div 64 mod 64 * 64 + c mod 64"
proof -
  define q where "q = c div 64"
  define r0 where "r0 = c mod 64"
  define p where "p = q div 64"
  define r1 where "r1 = q mod 64"
  have "c div 4096 = p"
    unfolding p_def q_def by (simp add: div_mult2_eq [symmetric])
  moreover have "c = q * 64 + r0" unfolding q_def r0_def by simp
  moreover have "q = p * 64 + r1" unfolding p_def r1_def by simp
  ultimately have "c = c div 4096 * 4096 + r1 * 64 + r0" by simp
  then show ?thesis unfolding r1_def r0_def q_def .
qed

lemma digits4:
  fixes c :: nat
  shows "c = c div 262144 * 262144 + c div 4096 mod 64 * 4096 + c div 64 mod 64 * 64 + c mod 64"
proof -
  define q where "q = c div 4096"
  define t where "t = q div 64"
  define r2 where "r2 = q mod 64"
  have "c div 262144 = t"
    unfolding t_def q_def by (simp add: div_mult2_eq [symmetric])
  moreover have "q = t * 64 + r2" unfolding t_def r2_def by simp
  ultimately have "c div 4096 * 4096 = c div 262144 * 262144 + r2 * 4096"
    unfolding q_def [symmetric] by simp
  with digits3 [of c] show ?thesis unfolding r2_def q_def by simp
qed

lemma decode1_bytes:
  assumes "unat b0 = c" "c < 128"
  shows "utf8_decode (b0 # r) = map_option ((#) c) (utf8_decode r)"
  using assms by (simp add: Let_def)

lemma decode2_bytes:
  assumes "unat b0 = 192 + p" "2 \<le> p" "p < 32" "unat b1 = 128 + r0" "r0 < 64"
  shows "utf8_decode (b0 # b1 # r) = map_option ((#) (p * 64 + r0)) (utf8_decode r)"
proof -
  have "is_cont b1" using assms(4,5) by (simp add: is_cont_def)
  moreover have "low6 b1 = r0" using assms(5,4) by (rule low6_eq)
  ultimately show ?thesis using assms(1,2,3) by (simp add: Let_def)
qed

lemma decode3_bytes:
  assumes "unat b0 = 224 + p" "p < 16" "unat b1 = 128 + r1" "r1 < 64"
    "unat b2 = 128 + r0" "r0 < 64" "p = 0 \<Longrightarrow> 32 \<le> r1" "p = 13 \<Longrightarrow> r1 < 32"
  shows "utf8_decode (b0 # b1 # b2 # r) =
         map_option ((#) (p * 4096 + r1 * 64 + r0)) (utf8_decode r)"
proof -
  have c2: "is_cont b2" using assms(5,6) by (simp add: is_cont_def)
  have l1: "low6 b1 = r1" using assms(4,3) by (rule low6_eq)
  have l2: "low6 b2 = r0" using assms(6,5) by (rule low6_eq)
  have bd: "in_bounds (if 224 + p = 224 then 160 else 128) b1 (if 224 + p = 237 then 159 else 191)"
    using assms(3,4,7,8) by (auto simp: in_bounds_def)
  show ?thesis using assms(1,2) c2 bd by (simp add: Let_def l1 l2)
qed

lemma decode4_bytes:
  assumes "unat b0 = 240 + t" "t < 5" "unat b1 = 128 + r2" "r2 < 64"
    "unat b2 = 128 + r1" "r1 < 64" "unat b3 = 128 + r0" "r0 < 64"
    "t = 0 \<Longrightarrow> 16 \<le> r2" "t = 4 \<Longrightarrow> r2 < 16"
  shows "utf8_decode (b0 # b1 # b2 # b3 # r) =
         map_option ((#) (t * 262144 + r2 * 4096 + r1 * 64 + r0)) (utf8_decode r)"
proof -
  have c2: "is_cont b2" using assms(5,6) by (simp add: is_cont_def)
  have c3: "is_cont b3" using assms(7,8) by (simp add: is_cont_def)
  have l1: "low6 b1 = r2" using assms(4,3) by (rule low6_eq)
  have l2: "low6 b2 = r1" using assms(6,5) by (rule low6_eq)
  have l3: "low6 b3 = r0" using assms(8,7) by (rule low6_eq)
  have bd: "in_bounds (if 240 + t = 240 then 144 else 128) b1 (if 240 + t = 244 then 143 else 191)"
    using assms(3,4,9,10) by (auto simp: in_bounds_def)
  show ?thesis using assms(1,2) c2 c3 bd by (simp add: Let_def l1 l2 l3)
qed

lemma utf8_encode_cp_cases:
  assumes "utf8_encode_cp c = Some bs"
  obtains (one) "c < 0x80" "bs = [of_nat c]"
  | (two) "0x80 \<le> c" "c < 0x800" "bs = [of_nat (0xC0 + c div 64), cont c]"
  | (three) "0x800 \<le> c" "c < 0x10000" "\<not> (0xD800 \<le> c \<and> c \<le> 0xDFFF)"
      "bs = [of_nat (0xE0 + c div 4096), cont (c div 64), cont c]"
  | (four) "0x10000 \<le> c" "c < 0x110000"
      "bs = [of_nat (0xF0 + c div 262144), cont (c div 4096), cont (c div 64), cont c]"
proof (cases "c < 0x80")
  case True
  then show ?thesis using assms one unfolding utf8_encode_cp_def by simp
next
  case c1: False
  show ?thesis
  proof (cases "c < 0x800")
    case True
    then show ?thesis using assms c1 two unfolding utf8_encode_cp_def by simp
  next
    case c2: False
    show ?thesis
    proof (cases "c < 0x10000")
      case True
      then show ?thesis using assms c1 c2 three unfolding utf8_encode_cp_def
        by (simp split: if_splits)
    next
      case c3: False
      then show ?thesis using assms c1 c2 four unfolding utf8_encode_cp_def
        by (simp split: if_splits)
    qed
  qed
qed

lemma utf8_decode_encode_cp:
  assumes "utf8_encode_cp c = Some bs"
  shows "utf8_decode (bs @ r) = map_option ((#) c) (utf8_decode r)"
  using assms
proof (cases rule: utf8_encode_cp_cases)
  case one
  have "unat (of_nat c :: byte) = c" using one(1) by (intro unat_byte) simp
  from decode1_bytes [OF this one(1), of r] show ?thesis
    unfolding one(2) by (simp only: append_Cons append_Nil)
next
  case two
  define p where "p = c div 64"
  define r0 where "r0 = c mod 64"
  have c: "c = p * 64 + r0" unfolding p_def r0_def by (rule digits2)
  have r0: "r0 < 64" unfolding r0_def by simp
  have p: "2 \<le> p" "p < 32" using c r0 two(1,2) by linarith+
  have u0: "unat (of_nat (0xC0 + p) :: byte) = 192 + p" using p by (intro unat_byte) simp
  have u1: "unat (cont c) = 128 + r0" unfolding r0_def by (rule unat_cont)
  from decode2_bytes [OF u0 p u1 r0, of r]
  have "utf8_decode (of_nat (0xC0 + p) # cont c # r) = map_option ((#) c) (utf8_decode r)"
    by (simp only: c [symmetric])
  then show ?thesis
    unfolding two(3) p_def by (simp only: append_Cons append_Nil)
next
  case three
  define p where "p = c div 4096"
  define r1 where "r1 = c div 64 mod 64"
  define r0 where "r0 = c mod 64"
  have c: "c = p * 4096 + r1 * 64 + r0" unfolding p_def r1_def r0_def by (rule digits3)
  have lt: "r0 < 64" "r1 < 64" unfolding r0_def r1_def by simp_all
  have p: "p < 16" using c three(2) by linarith
  have lo: "p = 0 \<Longrightarrow> 32 \<le> r1" using c lt three(1) by linarith
  have hi: "p = 13 \<Longrightarrow> r1 < 32" using c lt three(3) by linarith
  have u0: "unat (of_nat (0xE0 + p) :: byte) = 224 + p" using p by (intro unat_byte) simp
  have u1: "unat (cont (c div 64)) = 128 + r1" unfolding r1_def by (rule unat_cont)
  have u2: "unat (cont c) = 128 + r0" unfolding r0_def by (rule unat_cont)
  from decode3_bytes [OF u0 p u1 lt(2) u2 lt(1) lo hi, of r]
  have "utf8_decode (of_nat (0xE0 + p) # cont (c div 64) # cont c # r)
        = map_option ((#) c) (utf8_decode r)"
    by (simp only: c [symmetric])
  then show ?thesis
    unfolding three(4) p_def by (simp only: append_Cons append_Nil)
next
  case four
  define t where "t = c div 262144"
  define r2 where "r2 = c div 4096 mod 64"
  define r1 where "r1 = c div 64 mod 64"
  define r0 where "r0 = c mod 64"
  have c: "c = t * 262144 + r2 * 4096 + r1 * 64 + r0"
    unfolding t_def r2_def r1_def r0_def by (rule digits4)
  have lt: "r0 < 64" "r1 < 64" "r2 < 64" unfolding r0_def r1_def r2_def by simp_all
  have t: "t < 5" using c four(2) by linarith
  have lo: "t = 0 \<Longrightarrow> 16 \<le> r2" using c lt four(1) by linarith
  have hi: "t = 4 \<Longrightarrow> r2 < 16" using c lt four(2) by linarith
  have u0: "unat (of_nat (0xF0 + t) :: byte) = 240 + t" using t by (intro unat_byte) simp
  have u1: "unat (cont (c div 4096)) = 128 + r2" unfolding r2_def by (rule unat_cont)
  have u2: "unat (cont (c div 64)) = 128 + r1" unfolding r1_def by (rule unat_cont)
  have u3: "unat (cont c) = 128 + r0" unfolding r0_def by (rule unat_cont)
  from decode4_bytes [OF u0 t u1 lt(3) u2 lt(2) u3 lt(1) lo hi, of r]
  have "utf8_decode (of_nat (0xF0 + t) # cont (c div 4096) # cont (c div 64) # cont c # r)
        = map_option ((#) c) (utf8_decode r)"
    by (simp only: c [symmetric])
  then show ?thesis
    unfolding four(3) t_def by (simp only: append_Cons append_Nil)
qed

lemma utf8_decode_encode: "utf8_encode t = Some bs \<Longrightarrow> utf8_decode bs = Some t"
proof (induction t arbitrary: bs)
  case Nil
  then show ?case by simp
next
  case (Cons c t)
  from Cons.prems obtain b r where b: "utf8_encode_cp c = Some b" and r: "utf8_encode t = Some r"
    and bs: "bs = b @ r"
    by (auto split: option.splits)
  from Cons.IH [OF r] utf8_decode_encode_cp [OF b, of r] show ?case
    unfolding bs by (simp only: option.map)
qed

subsection \<open>The \<^verbatim>\<open>String\<close> type called directly\<close>

text \<open>
  \<^verbatim>\<open>String.write(stream, text)\<close>, \<^verbatim>\<open>seek\<close> back, and \<^verbatim>\<open>String.read(stream, size)\<close>
  with \<^verbatim>\<open>size\<close> the encoded length return the text.
\<close>

lemma String_write_read:
  assumes "utf8_encode t = Some bs"
  shows "\<exists>s1. String_write s (PyStr t) = (Inr (length bs), s1) \<and>
     String_read (stream_seek s1 (pos s)) (int (length bs)) = (Inr (PyStr t), s1)"
proof -
  let ?s1 = "snd (stream_write s bs)"
  have w: "String_write s (PyStr t) = (Inr (length bs), ?s1)"
    using assms by (simp add: String_write_eq [of _ _ 0])
  from stream_write_data [of s bs] obtain rest where
    d: "drop (pos s) (data ?s1) = bs @ rest" and ps: "pos ?s1 = pos s + length bs"
    by blast
  have "stream_read (stream_seek ?s1 (pos s)) (int (length bs)) = (bs, ?s1)"
    using d ps by (simp add: stream_read_def stream_seek_def Let_def)
  then have "String_read (stream_seek ?s1 (pos s)) (int (length bs)) = (Inr (PyStr t), ?s1)"
    using utf8_decode_encode [OF assms] by (simp add: String_read_def)
  with w show ?thesis by blast
qed

lemma hello_round_trip:
  "String_write \<lparr>data = [], pos = 0\<rparr> (PyStr (text_of ''hello'')) =
     (Inr 5, \<lparr>data = [104, 101, 108, 108, 111], pos = 5\<rparr>) \<and>
   String_read \<lparr>data = [104, 101, 108, 108, 111], pos = 0\<rparr> 5 =
     (Inr (PyStr (text_of ''hello'')), \<lparr>data = [104, 101, 108, 108, 111], pos = 5\<rparr>)"
  by (simp add: text_of_def utf8_encode_cp_def stream_write_def String_read_def stream_read_def
      Let_def)

lemma int_struct_round_trip_example:
  "\<exists>s1 h'. Struct_write [0, 1] record_AB \<lparr>data = [], pos = 0\<rparr> = (None, s1) \<and>
      Struct_read [0, 1] record_AB (stream_seek s1 0) = (None, h', s1) \<and>
      map (\<lambda>r. value (h' r)) [0, 1] = [PyInt 1, PyInt 515]"
proof -
  have a: "\<forall>r\<in>set [0, 1]. type (record_AB r) \<in> {Int8, Int16, Int32} \<and>
            (\<exists>x. value (record_AB r) = PyInt x \<and> in_range (width (type (record_AB r))) x)"
    by (simp add: record_AB_def in_range_def)
  have d: "distinct [0, 1 :: ref]" by simp
  have v: "map (\<lambda>r. value (record_AB r)) [0, 1] = [PyInt 1, PyInt 515]"
    by (simp add: record_AB_def)
  have p: "pos \<lparr>data = [], pos = 0\<rparr> = 0" by simp
  from int_struct_round_trip [OF a refl d, of "\<lparr>data = [], pos = 0\<rparr>"] show ?thesis
    unfolding v p .
qed

subsection \<open>A struct with a \<^verbatim>\<open>String\<close> field\<close>

text \<open>
  C1 at a struct with a \<^verbatim>\<open>String\<close> field. \<^verbatim>\<open>Struct.write\<close> stores the five bytes of
  \<^verbatim>\<open>"hello"\<close>; after \<^verbatim>\<open>seek(0)\<close>, \<^verbatim>\<open>Struct.read\<close> into a second struct of the same
  schema raises \<^verbatim>\<open>TypeError\<close>, because \<^verbatim>\<open>field.type.read(in_stream)\<close> does not pass
  the \<^verbatim>\<open>size\<close> that \<^verbatim>\<open>String.read\<close> requires. Nothing is consumed and the field stays
  unset.
\<close>

theorem String_field_round_trip_fails:
  "Struct_write [0] greeting \<lparr>data = [], pos = 0\<rparr> =
     (None, \<lparr>data = [104, 101, 108, 108, 111], pos = 5\<rparr>) \<and>
   Struct_read [1] greeting (stream_seek \<lparr>data = [104, 101, 108, 108, 111], pos = 5\<rparr> 0) =
     (Some TypeError, greeting, \<lparr>data = [104, 101, 108, 108, 111], pos = 0\<rparr>) \<and>
   Struct_get [1] greeting ''msg'' = Inr PyNone"
  by (simp add: greeting_def unset_def text_of_def stream_write_def stream_seek_def utf8_encode_cp_def)

end
